theory Spec2Isabelle
  imports Main "HOL-Library.Char_ord" "HOL-Library.List_Lexorder"
begin

section \<open>Glossary model (src/src/models/Glossary.js)\<close>

text \<open>
  One element of the \<^verbatim>\<open>translations\<close> array of a glossary term. The schema's field
  names \<^verbatim>\<open>locale\<close>, \<^verbatim>\<open>value\<close> and \<^verbatim>\<open>context\<close> are reserved words of the theory
  language, so they carry the suffix \<open>_g\<close>. A date is the number of milliseconds it
  holds.
\<close>

record gloss_translation =
  locale_g :: string
  value_g :: string
  context_g :: "string option"
  isPreferred :: bool

datatype category = Business | Industry | Technical | Marketing | Legal | Custom

record glossary_metadata =
  createdBy_g :: string
  lastUsed :: "nat option"
  usageCount :: nat

text \<open>
  The glossary document. \<^verbatim>\<open>metadata.tags\<close> and \<^verbatim>\<open>metadata.notes\<close> are left out: no
  method of the model reads or writes them. \<^verbatim>\<open>usageCount\<close> is the stored count as data;
  \<^verbatim>\<open>incrementUsage()\<close>, whose addition is one of double-precision numbers, is not
  modelled.
\<close>

record glossary =
  tenantId :: string
  businessId :: "string option"
  term_g :: string
  translations_g :: "gloss_translation list"
  category :: category
  metadata_g :: glossary_metadata
  isActive_g :: bool
  createdAt_g :: nat
  updatedAt_g :: nat

text \<open>
  \<^verbatim>\<open>glossarySchema.pre('save', ...)\<close>: every save refreshes \<^verbatim>\<open>updatedAt\<close>. The clock
  reading \<open>now\<close> stands for \<^verbatim>\<open>new Date()\<close>. The store's own schema validation is the
  external store's business and is not part of the model.
\<close>

definition save_g :: "nat \<Rightarrow> glossary \<Rightarrow> glossary" where
  "save_g now g = g\<lparr>updatedAt_g := now\<rparr>"

text \<open>
  \<^verbatim>\<open>getTranslation(locale)\<close>: \<^verbatim>\<open>Array.prototype.find\<close> returns the first element that
  satisfies the predicate, or \<^verbatim>\<open>undefined\<close>; a found element is an object and so truthy.
\<close>

definition getTranslation :: "glossary \<Rightarrow> string \<Rightarrow> string" where
  "getTranslation g loc =
     (case find (\<lambda>t. locale_g t = loc) (translations_g g) of
        Some translation \<Rightarrow> value_g translation
      | None \<Rightarrow>
          (case find (\<lambda>t. isPreferred t) (translations_g g) of
             Some preferred \<Rightarrow> value_g preferred
           | None \<Rightarrow>
               if length (translations_g g) > 0 then value_g (translations_g g ! 0)
               else term_g g))"

text \<open>
  \<^verbatim>\<open>addTranslation(locale, value, context = '', isPreferred = false)\<close>: filter out the
  locale, push the new element, and, when it is preferred, run the \<^verbatim>\<open>forEach\<close> that
  clears the flag on every element of another locale; then save.
\<close>

definition unmark_others :: "string \<Rightarrow> gloss_translation list \<Rightarrow> gloss_translation list" where
  "unmark_others loc ts =
     map (\<lambda>t. if locale_g t \<noteq> loc then t\<lparr>isPreferred := False\<rparr> else t) ts"

definition addTranslation ::
  "string \<Rightarrow> string \<Rightarrow> string \<Rightarrow> bool \<Rightarrow> nat \<Rightarrow> glossary \<Rightarrow> glossary" where
  "addTranslation loc v ctx pref now g =
     (let removed = filter (\<lambda>t. locale_g t \<noteq> loc) (translations_g g);
          pushed = removed @
            [\<lparr>locale_g = loc, value_g = v, context_g = Some ctx, isPreferred = pref\<rparr>];
          marked = (if pref then unmark_others loc pushed else pushed)
      in save_g now (g\<lparr>translations_g := marked\<rparr>))"

text \<open>
  The two invariants the data model states for the \<^verbatim>\<open>translations\<close> list: at most one
  preferred element, and at most one element per locale.
\<close>

definition preferred_count :: "gloss_translation list \<Rightarrow> nat" where
  "preferred_count ts = length (filter isPreferred ts)"

definition one_per_locale :: "gloss_translation list \<Rightarrow> bool" where
  "one_per_locale ts = distinct (map locale_g ts)"

text \<open>The term of the specification's fallback example.\<close>

definition example_term :: glossary where
  "example_term =
     \<lparr>tenantId = ''t1'', businessId = None, term_g = ''Hello'',
      translations_g =
        [\<lparr>locale_g = ''fr'', value_g = ''A'', context_g = None, isPreferred = False\<rparr>,
         \<lparr>locale_g = ''es'', value_g = ''B'', context_g = None, isPreferred = True\<rparr>],
      category = Business,
      metadata_g = \<lparr>createdBy_g = ''system'', lastUsed = None, usageCount = 0\<rparr>,
      isActive_g = True, createdAt_g = 0, updatedAt_g = 0\<rparr>"

text \<open>The same term with no translation yet.\<close>

definition empty_term :: glossary where
  "empty_term = example_term\<lparr>translations_g := []\<rparr>"

section \<open>Translation model (src/src/models/Translation.js)\<close>

datatype status = Draft | Reviewed | Published | Archived

datatype source = Manual | Machine | Import | Api

datatype variable_type = VString | VNumber | VDate | VCurrency | VPlural

record variable =
  name_v :: "string option"
  type_v :: variable_type
  required_v :: bool
  description_v :: "string option"

text \<open>
  \<^verbatim>\<open>metadata\<close> of a translation. \<^verbatim>\<open>confidence\<close>, \<^verbatim>\<open>tags\<close> and \<^verbatim>\<open>notes\<close> are left
  out: nothing in the service reads or writes them after creation.
\<close>

record metadata =
  createdBy :: string
  reviewedBy :: "string option"
  reviewedAt :: "nat option"
  publishedAt :: "nat option"
  source :: source

text \<open>
  The translation document; \<^verbatim>\<open>locale\<close>, \<^verbatim>\<open>value\<close> and \<^verbatim>\<open>context\<close> carry the suffix
  \<open>_t\<close>. The collection is the list of its documents in insertion order.
\<close>

record translation =
  namespace :: string
  key :: string
  locale_t :: string
  value_t :: string
  context_t :: "string option"
  status :: status
  metadata :: metadata
  variables :: "variable list"
  isActive :: bool
  createdAt :: nat
  updatedAt :: nat

type_synonym collection = "translation list"

text \<open>
  \<^verbatim>\<open>translationSchema.pre('save', ...)\<close>: refresh \<^verbatim>\<open>updatedAt\<close>, and stamp
  \<^verbatim>\<open>metadata.publishedAt\<close> when the status is published and no stamp is stored (a stored
  \<^verbatim>\<open>Date\<close> is truthy). \<open>save\<close> is the document as \<^verbatim>\<open>this.save()\<close> stores it.
\<close>

definition pre_save :: "nat \<Rightarrow> translation \<Rightarrow> translation" where
  "pre_save now t =
     (let t1 = t\<lparr>updatedAt := now\<rparr> in
      if status t1 = Published \<and> publishedAt (metadata t1) = None
      then t1\<lparr>metadata := (metadata t1)\<lparr>publishedAt := Some now\<rparr>\<rparr>
      else t1)"

definition save :: "nat \<Rightarrow> translation \<Rightarrow> translation" where
  "save now t = pre_save now t"

text \<open>
  The instance methods \<^verbatim>\<open>publish()\<close>, \<^verbatim>\<open>archive()\<close> and \<^verbatim>\<open>review(reviewedBy)\<close>. The
  first argument of \<open>publish\<close> and the second of \<open>review\<close> is the method's own
  \<^verbatim>\<open>new Date()\<close>; \<open>now\<close> is the clock reading of the save that follows.
\<close>

definition publish :: "nat \<Rightarrow> nat \<Rightarrow> translation \<Rightarrow> translation" where
  "publish now_p now t =
     save now (t\<lparr>status := Published,
                 metadata := (metadata t)\<lparr>publishedAt := Some now_p\<rparr>\<rparr>)"

definition archive :: "nat \<Rightarrow> translation \<Rightarrow> translation" where
  "archive now t = save now (t\<lparr>status := Archived, isActive := False\<rparr>)"

definition review :: "string \<Rightarrow> nat \<Rightarrow> nat \<Rightarrow> translation \<Rightarrow> translation" where
  "review by now_r now t =
     save now (t\<lparr>status := Reviewed,
                 metadata := (metadata t)\<lparr>reviewedBy := Some by, reviewedAt := Some now_r\<rparr>\<rparr>)"

subsection \<open>Static methods\<close>



text \<open>\<^verbatim>\<open>getBundles\<close> selects \<^verbatim>\<open>namespace key locale value variables\<close>.\<close>

record bundle_row =
  namespace_b :: string
  key_b :: string
  locale_b :: string
  value_b :: string
  variables_b :: "variable list"

definition select_row :: "translation \<Rightarrow> bundle_row" where
  "select_row t =
     \<lparr>namespace_b = namespace t, key_b = key t, locale_b = locale_t t,
      value_b = value_t t, variables_b = variables t\<rparr>"

definition getBundles ::
  "string list \<Rightarrow> string list \<Rightarrow> status \<Rightarrow> collection \<Rightarrow> bundle_row list" where
  "getBundles namespaces locales st s =
     map select_row
       (filter (\<lambda>t. namespace t \<in> set namespaces \<and> locale_t t \<in> set locales \<and>
                     status t = st \<and> isActive t) s)"

text \<open>
  \<^verbatim>\<open>getMissingKeys\<close>: the four stages of the aggregation pipeline. \<^verbatim>\<open>$group\<close> makes
  one document per distinct key with the set of its locales (\<^verbatim>\<open>$addToSet\<close>);
  \<^verbatim>\<open>$setDifference\<close> keeps the elements of its first array that are not in the second,
  without duplicates. The store fixes no order for the groups or inside a set; the
  lists here keep the order of first insertion.
\<close>

record missing_row =
  id_m :: string
  key_m :: string
  locales_m :: "string list"
  missing_m :: "string list"

definition match_published :: "string \<Rightarrow> collection \<Rightarrow> collection" where
  "match_published ns s =
     filter (\<lambda>t. namespace t = ns \<and> isActive t \<and> status t = Published) s"

definition group_by_key :: "collection \<Rightarrow> (string \<times> string list) list" where
  "group_by_key ts =
     map (\<lambda>k. (k, remdups (map locale_t (filter (\<lambda>t. key t = k) ts)))) (remdups (map key ts))"

definition setDifference :: "string list \<Rightarrow> string list \<Rightarrow> string list" where
  "setDifference a b = remdups (filter (\<lambda>x. x \<notin> set b) a)"

definition project_missing :: "string list \<Rightarrow> string \<times> string list \<Rightarrow> missing_row" where
  "project_missing locales g =
     \<lparr>id_m = fst g, key_m = fst g, locales_m = snd g,
      missing_m = setDifference locales (snd g)\<rparr>"

definition getMissingKeys :: "string \<Rightarrow> string list \<Rightarrow> collection \<Rightarrow> missing_row list" where
  "getMissingKeys ns locales s =
     filter (\<lambda>r. missing_m r \<noteq> [])
       (map (project_missing locales) (group_by_key (match_published ns s)))"

section \<open>The store operations the routes call\<close>

text \<open>
  The document store is an external library; these functions give the behaviour the
  routes rely on. \<^verbatim>\<open>findOneAndUpdate(filter, update)\<close> applies the update to the first
  document that matches and returns it (option \<^verbatim>\<open>new: true\<close>), or returns \<^verbatim>\<open>null\<close>
  and changes nothing; with \<^verbatim>\<open>upsert: true\<close> it inserts a new document instead.
  \<^verbatim>\<open>updateMany\<close> applies the update to every matching document;
  \<^verbatim>\<open>modifiedCount\<close> counts the matched documents the update changed. Query middleware
  is separate from document middleware: neither runs \<^verbatim>\<open>pre('save')\<close>. The schema option
  \<^verbatim>\<open>timestamps: true\<close> makes each of them set \<^verbatim>\<open>updatedAt\<close>.
\<close>

fun findOneAndUpdate ::
  "(translation \<Rightarrow> bool) \<Rightarrow> (translation \<Rightarrow> translation) \<Rightarrow> collection
     \<Rightarrow> collection \<times> translation option" where
  "findOneAndUpdate p upd [] = ([], None)"
| "findOneAndUpdate p upd (t # ts) =
     (if p t then (upd t # ts, Some (upd t))
      else (case findOneAndUpdate p upd ts of (ts', r) \<Rightarrow> (t # ts', r)))"

definition findOneAndUpdate_upsert ::
  "(translation \<Rightarrow> bool) \<Rightarrow> (translation \<Rightarrow> translation) \<Rightarrow> translation \<Rightarrow> collection
     \<Rightarrow> collection \<times> translation" where
  "findOneAndUpdate_upsert p upd inserted s =
     (case findOneAndUpdate p upd s of
        (s', Some d) \<Rightarrow> (s', d)
      | (s', None) \<Rightarrow> (s @ [inserted], inserted))"

fun updateMany ::
  "(translation \<Rightarrow> bool) \<Rightarrow> (translation \<Rightarrow> translation) \<Rightarrow> collection
     \<Rightarrow> collection \<times> nat" where
  "updateMany p upd [] = ([], 0)"
| "updateMany p upd (t # ts) =
     (case updateMany p upd ts of
        (ts', n) \<Rightarrow>
          if p t then (upd t # ts', if upd t \<noteq> t then Suc n else n)
          else (t # ts', n))"

text \<open>The unique compound index on \<^verbatim>\<open>(namespace, key, locale)\<close>.\<close>

definition unique_index :: "collection \<Rightarrow> bool" where
  "unique_index s = distinct (map (\<lambda>t. (namespace t, key t, locale_t t)) s)"

section \<open>Translation routes (src/src/index.js)\<close>

datatype error = NotFound

text \<open>
  \<^verbatim>\<open>POST /api/i18n/keys\<close>. One iteration of the loop is \<open>upsert\<close>: the update document
  sets the three key fields, the value, the context, the variables, the creator and
  \<^verbatim>\<open>status: 'draft'\<close>; an \<^verbatim>\<open>undefined\<close> context is dropped from the update. The
  inserted document takes the schema defaults for everything else.
\<close>

definition upsert_update ::
  "string \<Rightarrow> string \<Rightarrow> string \<Rightarrow> string \<Rightarrow> string option \<Rightarrow> variable list \<Rightarrow> string \<Rightarrow> nat
     \<Rightarrow> translation \<Rightarrow> translation" where
  "upsert_update ns k loc v ctx vars by now t =
     t\<lparr>namespace := ns, key := k, locale_t := loc, value_t := v,
       context_t := (case ctx of None \<Rightarrow> context_t t | Some c \<Rightarrow> Some c),
       variables := vars,
       metadata := (metadata t)\<lparr>createdBy := by\<rparr>,
       status := Draft,
       updatedAt := now\<rparr>"

definition upsert_insert ::
  "string \<Rightarrow> string \<Rightarrow> string \<Rightarrow> string \<Rightarrow> string option \<Rightarrow> variable list \<Rightarrow> string \<Rightarrow> nat
     \<Rightarrow> translation" where
  "upsert_insert ns k loc v ctx vars by now =
     \<lparr>namespace = ns, key = k, locale_t = loc, value_t = v, context_t = ctx,
      status = Draft,
      metadata = \<lparr>createdBy = by, reviewedBy = None, reviewedAt = None,
                  publishedAt = None, source = Manual\<rparr>,
      variables = vars, isActive = True, createdAt = now, updatedAt = now\<rparr>"

definition upsert ::
  "string \<Rightarrow> string \<Rightarrow> string \<Rightarrow> string \<Rightarrow> string option \<Rightarrow> variable list \<Rightarrow> string \<Rightarrow> nat
     \<Rightarrow> collection \<Rightarrow> collection \<times> translation" where
  "upsert ns k loc v ctx vars by now s =
     findOneAndUpdate_upsert
       (\<lambda>t. namespace t = ns \<and> key t = k \<and> locale_t t = loc)
       (upsert_update ns k loc v ctx vars by now)
       (upsert_insert ns k loc v ctx vars by now) s"

text \<open>
  The loop over \<^verbatim>\<open>Object.entries(translations)\<close>; each entry comes with the clock
  reading of its iteration. The handler answers with the list of the documents.
\<close>

fun postKeys ::
  "string \<Rightarrow> string \<Rightarrow> (string \<times> string \<times> nat) list \<Rightarrow> string option \<Rightarrow> variable list
     \<Rightarrow> string \<Rightarrow> collection \<Rightarrow> collection \<times> translation list" where
  "postKeys ns k [] ctx vars by s = (s, [])"
| "postKeys ns k ((loc, v, now) # rest) ctx vars by s =
     (case upsert ns k loc v ctx vars by now s of
        (s1, d) \<Rightarrow>
          (case postKeys ns k rest ctx vars by s1 of
             (s2, results) \<Rightarrow> (s2, d # results)))"

text \<open>
  \<^verbatim>\<open>GET /api/i18n/:namespace/:key\<close>: the active documents of the key in the requested
  locales, sorted by locale, written one after the other into the result object.
  \<open>assign\<close> is the assignment \<^verbatim>\<open>result[name] = v\<close> on the plain object \<^verbatim>\<open>result\<close> with an
  object \<open>v\<close>: it adds or replaces the property, except for the name \<^verbatim>\<open>__proto__\<close>,
  where it sets the prototype and adds no property, so the answer holds no such key.
\<close>

record entry_view =
  value_r :: string
  context_r :: "string option"
  status_r :: status
  variables_r :: "variable list"

definition view :: "translation \<Rightarrow> entry_view" where
  "view t =
     \<lparr>value_r = value_t t, context_r = context_t t, status_r = status t,
      variables_r = variables t\<rparr>"

definition assign ::
  "(string \<rightharpoonup> entry_view) \<Rightarrow> string \<Rightarrow> entry_view \<Rightarrow> (string \<rightharpoonup> entry_view)" where
  "assign result name v = (if name = ''__proto__'' then result else result(name \<mapsto> v))"

definition getEntry ::
  "string \<Rightarrow> string \<Rightarrow> string list \<Rightarrow> collection \<Rightarrow> (string \<rightharpoonup> entry_view)" where
  "getEntry ns k locales s =
     foldl (\<lambda>result t. assign result (locale_t t) (view t)) Map.empty
       (sort_key locale_t
         (filter (\<lambda>t. namespace t = ns \<and> key t = k \<and> locale_t t \<in> set locales \<and> isActive t) s))"

text \<open>
  \<^verbatim>\<open>PUT /api/i18n/:namespace/:key/:locale\<close>. A field of the body is \<open>None\<close> when the
  request leaves it out (for \<^verbatim>\<open>status\<close>: when it is falsy); the update document then
  holds \<^verbatim>\<open>undefined\<close> for value, context and variables, which the store drops, and
  \<^verbatim>\<open>status || 'draft'\<close> for the status.
\<close>

record put_body =
  value_p :: "string option"
  context_p :: "string option"
  variables_p :: "variable list option"
  status_p :: "status option"
  updatedBy_p :: "string option"

definition put_update :: "put_body \<Rightarrow> nat \<Rightarrow> translation \<Rightarrow> translation" where
  "put_update body now t =
     t\<lparr>value_t := (case value_p body of None \<Rightarrow> value_t t | Some v \<Rightarrow> v),
       context_t := (case context_p body of None \<Rightarrow> context_t t | Some c \<Rightarrow> Some c),
       variables := (case variables_p body of None \<Rightarrow> variables t | Some vs \<Rightarrow> vs),
       status := (case status_p body of None \<Rightarrow> Draft | Some st \<Rightarrow> st),
       metadata := (metadata t)\<lparr>createdBy :=
         (case updatedBy_p body of None \<Rightarrow> ''system'' | Some u \<Rightarrow> u)\<rparr>,
       updatedAt := now\<rparr>"

definition putEntry ::
  "string \<Rightarrow> string \<Rightarrow> string \<Rightarrow> put_body \<Rightarrow> nat \<Rightarrow> collection
     \<Rightarrow> collection \<times> (error + translation)" where
  "putEntry ns k loc body now s =
     (case findOneAndUpdate
             (\<lambda>t. namespace t = ns \<and> key t = k \<and> locale_t t = loc)
             (put_update body now) s of
        (s', None) \<Rightarrow> (s', Inl NotFound)
      | (s', Some d) \<Rightarrow> (s', Inr d))"

text \<open>
  \<^verbatim>\<open>POST /api/i18n/publish\<close>: one \<^verbatim>\<open>updateMany\<close>; the answer is its
  \<^verbatim>\<open>modifiedCount\<close>. \<open>now\<close> is the handler's \<^verbatim>\<open>new Date()\<close>, \<open>now_u\<close> the clock
  reading of the store's \<^verbatim>\<open>updatedAt\<close>.
\<close>

definition publish_filter :: "string \<Rightarrow> string list \<Rightarrow> translation \<Rightarrow> bool" where
  "publish_filter ns keys t =
     (namespace t = ns \<and> key t \<in> set keys \<and> status t \<in> set [Draft, Reviewed])"

definition publish_update :: "string \<Rightarrow> nat \<Rightarrow> nat \<Rightarrow> translation \<Rightarrow> translation" where
  "publish_update publishedBy now now_u t =
     t\<lparr>status := Published,
       metadata := (metadata t)\<lparr>publishedAt := Some now, createdBy := publishedBy\<rparr>,
       updatedAt := now_u\<rparr>"

definition postPublish ::
  "string \<Rightarrow> string list \<Rightarrow> string \<Rightarrow> nat \<Rightarrow> nat \<Rightarrow> collection \<Rightarrow> collection \<times> nat" where
  "postPublish ns keys publishedBy now now_u s =
     updateMany (publish_filter ns keys) (publish_update publishedBy now now_u) s"

section \<open>Example collections\<close>

text \<open>
  One key \<^verbatim>\<open>k1\<close> of namespace \<^verbatim>\<open>ui\<close> in locale \<^verbatim>\<open>en\<close>: created by the keys route,
  then archived by \<^verbatim>\<open>archive()\<close>, then written again by the keys route.
\<close>

definition hello_store :: collection where
  "hello_store = fst (upsert ''ui'' ''k1'' ''en'' ''Hello'' None [] ''alice'' 1 [])"

definition archived_store :: collection where
  "archived_store = map (archive 2) hello_store"

definition revived_store :: collection where
  "revived_store = fst (upsert ''ui'' ''k1'' ''en'' ''Hi'' None [] ''alice'' 3 archived_store)"

text \<open>The document of \<open>hello_store\<close>, the collection after it is published, and a request
  body that holds a value and nothing else.\<close>

definition hello_doc :: translation where
  "hello_doc = snd (upsert ''ui'' ''k1'' ''en'' ''Hello'' None [] ''alice'' 1 [])"

definition published_store :: collection where
  "published_store = fst (postPublish ''ui'' [''k1''] ''bob'' 2 2 hello_store)"

definition value_only_body :: put_body where
  "value_only_body =
     \<lparr>value_p = Some ''Hi'', context_p = None, variables_p = None, status_p = None,
      updatedBy_p = None\<rparr>"


text \<open>
  The locales present for a key, as the report counts them: those of the key's active
  published documents in the namespace.
\<close>

definition present_locales :: "string \<Rightarrow> string \<Rightarrow> collection \<Rightarrow> string set" where
  "present_locales ns k s =
     set (map locale_t
       (filter (\<lambda>t. namespace t = ns \<and> isActive t \<and> status t = Published \<and> key t = k) s))"

text \<open>
  The specification's example for the report: the key \<^verbatim>\<open>greeting\<close> published in
  \<^verbatim>\<open>en\<close> and \<^verbatim>\<open>ar\<close>.
\<close>

definition greeting_store :: collection where
  "greeting_store =
     fst (postPublish ''ui'' [''greeting''] ''bob'' 3 3
       (fst (postKeys ''ui'' ''greeting'' [(''en'', ''Hello'', 1), (''ar'', ''Marhaba'', 2)]
               None [] ''alice'' [])))"

text \<open>
  The published document written again by the keys route, and then published again.
\<close>

definition redrafted_store :: collection where
  "redrafted_store = fst (upsert ''ui'' ''k1'' ''en'' ''Hi'' None [] ''alice'' 3 published_store)"

definition republished_store :: collection where
  "republished_store = fst (postPublish ''ui'' [''k1''] ''carol'' 4 4 redrafted_store)"

section \<open>Properties of the glossary model\<close>

lemma find_first_split:
  "\<forall>u\<in>set xs. \<not> P u \<Longrightarrow> P t \<Longrightarrow> find P (xs @ t # ys) = Some t"
  by (induction xs) auto

lemma find_none_iff_all: "(\<forall>u\<in>set xs. \<not> P u) \<Longrightarrow> find P xs = None"
  by (induction xs) auto

text \<open>
  C1. \<^verbatim>\<open>getTranslation\<close> resolves in priority order: the first element whose locale
  is the requested one; failing that, the first preferred element; failing that, the
  first element of the list; and the term itself when the list is empty. An exact
  locale match wins whatever element is preferred.
\<close>

theorem getTranslation_priority:
  "(translations_g g = xs @ t # ys \<and> (\<forall>u\<in>set xs. locale_g u \<noteq> loc) \<and> locale_g t = loc
      \<longrightarrow> getTranslation g loc = value_g t) \<and>
   ((\<forall>u\<in>set (translations_g g). locale_g u \<noteq> loc) \<and> translations_g g = ps @ p # qs \<and>
      (\<forall>u\<in>set ps. \<not> isPreferred u) \<and> isPreferred p
      \<longrightarrow> getTranslation g loc = value_g p) \<and>
   ((\<forall>u\<in>set (translations_g g). locale_g u \<noteq> loc \<and> \<not> isPreferred u) \<and>
      translations_g g = f # rest
      \<longrightarrow> getTranslation g loc = value_g f) \<and>
   (translations_g g = [] \<longrightarrow> getTranslation g loc = term_g g)"
proof (intro conjI impI)
  assume "translations_g g = xs @ t # ys \<and> (\<forall>u\<in>set xs. locale_g u \<noteq> loc) \<and> locale_g t = loc"
  then have "find (\<lambda>t. locale_g t = loc) (translations_g g) = Some t"
    using find_first_split [of xs "\<lambda>t. locale_g t = loc" t ys] by simp
  then show "getTranslation g loc = value_g t"
    by (simp add: getTranslation_def)
next
  assume a: "(\<forall>u\<in>set (translations_g g). locale_g u \<noteq> loc) \<and> translations_g g = ps @ p # qs \<and>
      (\<forall>u\<in>set ps. \<not> isPreferred u) \<and> isPreferred p"
  then have "find (\<lambda>t. locale_g t = loc) (translations_g g) = None"
    using find_none_iff_all [of "translations_g g" "\<lambda>t. locale_g t = loc"] by simp
  moreover from a have "find (\<lambda>t. isPreferred t) (translations_g g) = Some p"
    using find_first_split [of ps isPreferred p qs] by simp
  ultimately show "getTranslation g loc = value_g p"
    by (simp add: getTranslation_def)
next
  assume a: "(\<forall>u\<in>set (translations_g g). locale_g u \<noteq> loc \<and> \<not> isPreferred u) \<and>
      translations_g g = f # rest"
  then have "find (\<lambda>t. locale_g t = loc) (translations_g g) = None"
    using find_none_iff_all [of "translations_g g" "\<lambda>t. locale_g t = loc"] by simp
  moreover from a have "find (\<lambda>t. isPreferred t) (translations_g g) = None"
    using find_none_iff_all [of "translations_g g" isPreferred] by simp
  ultimately show "getTranslation g loc = value_g f"
    using a by (simp add: getTranslation_def)
next
  assume "translations_g g = []"
  then show "getTranslation g loc = term_g g"
    by (simp add: getTranslation_def)
qed


text \<open>
  The specification's example: \<^verbatim>\<open>fr\<close> resolves to its own value although \<^verbatim>\<open>es\<close> is
  preferred, \<^verbatim>\<open>de\<close> falls back to the preferred value, then to the first element, then
  to the term.
\<close>

theorem getTranslation_priority_witness:
  "getTranslation example_term ''fr'' = ''A'' \<and>
   getTranslation example_term ''de'' = ''B'' \<and>
   getTranslation (example_term\<lparr>translations_g := [\<lparr>locale_g = ''fr'', value_g = ''A'', context_g = None, isPreferred = False\<rparr>]\<rparr>) ''de'' = ''A'' \<and>
   getTranslation (example_term\<lparr>translations_g := []\<rparr>) ''de'' = ''Hello''"
  using
    getTranslation_priority [where g = example_term and loc = "''fr''" and xs = "[]"
      and t = "\<lparr>locale_g = ''fr'', value_g = ''A'', context_g = None, isPreferred = False\<rparr>"
      and ys = "[\<lparr>locale_g = ''es'', value_g = ''B'', context_g = None, isPreferred = True\<rparr>]"]
    getTranslation_priority [where g = example_term and loc = "''de''"
      and ps = "[\<lparr>locale_g = ''fr'', value_g = ''A'', context_g = None, isPreferred = False\<rparr>]"
      and p = "\<lparr>locale_g = ''es'', value_g = ''B'', context_g = None, isPreferred = True\<rparr>"
      and qs = "[]"]
    getTranslation_priority [where g = "example_term\<lparr>translations_g := [\<lparr>locale_g = ''fr'', value_g = ''A'', context_g = None, isPreferred = False\<rparr>]\<rparr>" and loc = "''de''"
      and f = "\<lparr>locale_g = ''fr'', value_g = ''A'', context_g = None, isPreferred = False\<rparr>"
      and rest = "[]"]
    getTranslation_priority [where g = "example_term\<lparr>translations_g := []\<rparr>" and loc = "''de''"]
  by (simp add: example_term_def)

lemma map_locale_unmark_others: "map locale_g (unmark_others loc ts) = map locale_g ts"
  by (induction ts) (auto simp: unmark_others_def)

lemma preferred_unmark_others:
  "filter isPreferred (unmark_others loc ts) =
     filter (\<lambda>t. isPreferred t \<and> locale_g t = loc) ts"
  by (induction ts) (auto simp: unmark_others_def)

lemma filter_locale_unmark_others:
  "filter (\<lambda>t. locale_g t = loc) (unmark_others loc ts) = filter (\<lambda>t. locale_g t = loc) ts"
  by (induction ts) (auto simp: unmark_others_def)

lemma preferred_count_filter:
  "preferred_count (filter P ts) \<le> preferred_count ts"
  by (induction ts) (auto simp: preferred_count_def)

lemma filter_both_none: "filter (\<lambda>t. Q t \<and> locale_g t = loc) (filter (\<lambda>t. locale_g t \<noteq> loc) ts) = []"
  by (induction ts) auto

lemma filter_loc_removed: "filter (\<lambda>t. locale_g t = loc) (filter (\<lambda>t. locale_g t \<noteq> loc) ts) = []"
  by (induction ts) auto

text \<open>
  C7. \<^verbatim>\<open>addTranslation\<close> keeps both invariants of the \<^verbatim>\<open>translations\<close> list: from a
  list with at most one preferred element and at most one element per locale it
  yields such a list again. The element of the added locale is the new one alone (an
  element of that locale is replaced), and when the call passes \<^verbatim>\<open>isPreferred = true\<close>
  the new element is the only preferred one: the flag is cleared everywhere else.
\<close>

theorem addTranslation_invariant:
  "preferred_count (translations_g g) \<le> 1 \<and> one_per_locale (translations_g g) \<longrightarrow>
     preferred_count (translations_g (addTranslation loc v ctx pref now g)) \<le> 1 \<and>
     one_per_locale (translations_g (addTranslation loc v ctx pref now g)) \<and>
     filter (\<lambda>t. locale_g t = loc) (translations_g (addTranslation loc v ctx pref now g)) =
       [\<lparr>locale_g = loc, value_g = v, context_g = Some ctx, isPreferred = pref\<rparr>] \<and>
     (pref \<longrightarrow> filter isPreferred (translations_g (addTranslation loc v ctx pref now g)) =
       [\<lparr>locale_g = loc, value_g = v, context_g = Some ctx, isPreferred = True\<rparr>])"
proof (intro impI)
  assume inv: "preferred_count (translations_g g) \<le> 1 \<and> one_per_locale (translations_g g)"
  let ?new = "\<lparr>locale_g = loc, value_g = v, context_g = Some ctx, isPreferred = pref\<rparr>"
  let ?removed = "filter (\<lambda>t. locale_g t \<noteq> loc) (translations_g g)"
  let ?res = "translations_g (addTranslation loc v ctx pref now g)"
  have res: "?res = (if pref then unmark_others loc (?removed @ [?new]) else ?removed @ [?new])"
    by (simp add: addTranslation_def save_g_def Let_def)
  have locs: "map locale_g ?res = map locale_g ?removed @ [loc]"
    by (simp add: res map_locale_unmark_others)
  have d: "one_per_locale ?res"
  proof -
    from inv have "distinct (map locale_g (translations_g g))"
      by (simp add: one_per_locale_def)
    then have "distinct (map locale_g ?removed)"
      by (rule distinct_map_filter)
    moreover have "loc \<notin> set (map locale_g ?removed)" by auto
    ultimately show ?thesis unfolding one_per_locale_def locs by simp
  qed
  have f: "filter (\<lambda>t. locale_g t = loc) ?res = [?new]"
    by (simp add: res filter_locale_unmark_others filter_loc_removed)
  have p: "pref \<longrightarrow> filter isPreferred ?res =
       [\<lparr>locale_g = loc, value_g = v, context_g = Some ctx, isPreferred = True\<rparr>]"
  proof
    assume pref
    then have "?res = unmark_others loc (?removed @ [?new])"
      using res by simp
    then show "filter isPreferred ?res =
       [\<lparr>locale_g = loc, value_g = v, context_g = Some ctx, isPreferred = True\<rparr>]"
      using \<open>pref\<close> by (simp add: preferred_unmark_others filter_both_none)
  qed
  have c: "preferred_count ?res \<le> 1"
  proof (cases pref)
    case True
    with p show ?thesis by (simp add: preferred_count_def)
  next
    case False
    then have "preferred_count ?res = preferred_count ?removed"
      using res by (simp add: preferred_count_def)
    also have "\<dots> \<le> preferred_count (translations_g g)"
      by (rule preferred_count_filter)
    finally show ?thesis using inv by simp
  qed
  from c d f p show "preferred_count ?res \<le> 1 \<and> one_per_locale ?res \<and>
     filter (\<lambda>t. locale_g t = loc) ?res = [?new] \<and>
     (pref \<longrightarrow> filter isPreferred ?res =
       [\<lparr>locale_g = loc, value_g = v, context_g = Some ctx, isPreferred = True\<rparr>])"
    by blast
qed



text \<open>
  The specification's example: after adding \<^verbatim>\<open>en\<close> as preferred and then \<^verbatim>\<open>fr\<close> as
  preferred, only the \<^verbatim>\<open>fr\<close> element is preferred.
\<close>

theorem addTranslation_invariant_witness:
  "preferred_count (translations_g (addTranslation ''en'' ''Hello'' [] True 1 empty_term)) \<le> 1 \<and>
   one_per_locale (translations_g (addTranslation ''en'' ''Hello'' [] True 1 empty_term)) \<and>
   translations_g (addTranslation ''fr'' ''Bonjour'' [] True 2
       (addTranslation ''en'' ''Hello'' [] True 1 empty_term)) =
     [\<lparr>locale_g = ''en'', value_g = ''Hello'', context_g = Some [], isPreferred = False\<rparr>,
      \<lparr>locale_g = ''fr'', value_g = ''Bonjour'', context_g = Some [], isPreferred = True\<rparr>] \<and>
   filter isPreferred (translations_g (addTranslation ''fr'' ''Bonjour'' [] True 2
       (addTranslation ''en'' ''Hello'' [] True 1 empty_term))) =
     [\<lparr>locale_g = ''fr'', value_g = ''Bonjour'', context_g = Some [], isPreferred = True\<rparr>]"
  using addTranslation_invariant [of "addTranslation ''en'' ''Hello'' [] True 1 empty_term"
      "''fr''" "''Bonjour''" "[]" True 2]
  by (simp add: addTranslation_def save_g_def empty_term_def example_term_def
      unmark_others_def preferred_count_def one_per_locale_def)

section \<open>Properties of the store operations\<close>

lemma updateMany_fst:
  "fst (updateMany p upd s) = map (\<lambda>t. if p t then upd t else t) s"
  by (induction s) (auto split: prod.splits)

lemma updateMany_snd:
  "snd (updateMany p upd s) = length (filter (\<lambda>t. p t \<and> upd t \<noteq> t) s)"
  by (induction s) (auto split: prod.splits)

lemmas ex_defs = hello_store_def archived_store_def revived_store_def upsert_def
  findOneAndUpdate_upsert_def upsert_update_def upsert_insert_def archive_def save_def pre_save_def
  postPublish_def publish_filter_def publish_update_def

section \<open>Properties of the publish route\<close>

lemma publish_update_changes:
  "publish_filter ns keys t \<Longrightarrow> publish_update by now now_u t \<noteq> t"
proof
  assume m: "publish_filter ns keys t" and e: "publish_update by now now_u t = t"
  from e have "status (publish_update by now now_u t) = status t" by simp
  then have "status t = Published" by (simp add: publish_update_def)
  with m show False by (auto simp: publish_filter_def)
qed

lemma publish_update_unmatched: "\<not> publish_filter ns keys (publish_update by now now_u t)"
  by (simp add: publish_filter_def publish_update_def)

text \<open>
  C4 as stated fails: the filter of the publish route has no \<^verbatim>\<open>isActive\<close> condition.
  The document of \<open>revived_store\<close> is inactive and a draft; the route publishes it,
  stamps it and counts it.
\<close>

theorem postPublish_active_only_counterexample:
  "map isActive revived_store = [False] \<and>
   map status revived_store = [Draft] \<and>
   map status (fst (postPublish ''ui'' [''k1''] ''bob'' 4 4 revived_store)) = [Published] \<and>
   map (publishedAt \<circ> metadata) (fst (postPublish ''ui'' [''k1''] ''bob'' 4 4 revived_store)) =
     [Some 4] \<and>
   snd (postPublish ''ui'' [''k1''] ''bob'' 4 4 revived_store) = 1"
  by (simp add: ex_defs)

text \<open>
  C4, amended. The publish route modifies exactly the documents of the namespace whose
  key is among the keys and whose status is draft or reviewed, active or not: each gets
  \<^verbatim>\<open>status = published\<close> with \<^verbatim>\<open>publishedAt\<close> and \<^verbatim>\<open>createdBy\<close> stamped, every other
  document (published and archived ones among them) stays as it is, and the count
  returned is the number of documents so modified.
\<close>

theorem postPublish_modifies_matching:
  "postPublish ns keys by now now_u s =
     (map (\<lambda>t. if namespace t = ns \<and> key t \<in> set keys \<and> (status t = Draft \<or> status t = Reviewed)
                then t\<lparr>status := Published,
                       metadata := (metadata t)\<lparr>publishedAt := Some now, createdBy := by\<rparr>,
                       updatedAt := now_u\<rparr>
                else t) s,
      length (filter (\<lambda>t. namespace t = ns \<and> key t \<in> set keys \<and>
                           (status t = Draft \<or> status t = Reviewed)) s))"
proof -
  have f: "publish_filter ns keys = (\<lambda>t. namespace t = ns \<and> key t \<in> set keys \<and>
      (status t = Draft \<or> status t = Reviewed))"
    by (auto simp: publish_filter_def fun_eq_iff)
  have "fst (postPublish ns keys by now now_u s) =
      map (\<lambda>t. if publish_filter ns keys t then publish_update by now now_u t else t) s"
    by (simp add: postPublish_def updateMany_fst)
  moreover have "snd (postPublish ns keys by now now_u s) =
      length (filter (publish_filter ns keys) s)"
  proof -
    have "(\<lambda>t. publish_filter ns keys t \<and> publish_update by now now_u t \<noteq> t) =
        publish_filter ns keys"
      using publish_update_changes by (auto simp: fun_eq_iff)
    then show ?thesis by (simp add: postPublish_def updateMany_snd)
  qed
  ultimately show ?thesis
    unfolding f by (auto simp: prod_eq_iff publish_update_def)
qed

text \<open>
  On \<open>hello_store\<close>, whose one document is an active draft of key \<^verbatim>\<open>k1\<close>, the route
  publishes the document and counts it.
\<close>

theorem postPublish_modifies_matching_witness:
  "postPublish ''ui'' [''k1''] ''bob'' 2 2 hello_store =
     (map (\<lambda>t. t\<lparr>status := Published,
                 metadata := (metadata t)\<lparr>publishedAt := Some 2, createdBy := ''bob''\<rparr>,
                 updatedAt := 2\<rparr>) hello_store, 1)"
  using postPublish_modifies_matching [of "''ui''" "[''k1'']" "''bob''" 2 2 hello_store]
  by (simp add: ex_defs)

text \<open>
  C5. A second publish of the same namespace and keys right after the first matches
  nothing: it leaves the collection as the first publish made it and returns the
  count 0.
\<close>

theorem postPublish_idempotent:
  "postPublish ns keys by2 now2 now_u2 (fst (postPublish ns keys by1 now1 now_u1 s)) =
     (fst (postPublish ns keys by1 now1 now_u1 s), 0)"
proof -
  let ?s1 = "fst (postPublish ns keys by1 now1 now_u1 s)"
  have s1: "?s1 =
      map (\<lambda>t. if publish_filter ns keys t then publish_update by1 now1 now_u1 t else t) s"
    by (simp add: postPublish_def updateMany_fst)
  have none: "\<forall>t\<in>set ?s1. \<not> publish_filter ns keys t"
    unfolding s1 using publish_update_unmatched by auto
  then have "map (\<lambda>t. if publish_filter ns keys t then publish_update by2 now2 now_u2 t else t)
      ?s1 = ?s1"
    by (simp add: map_idI)
  moreover from none have
    "filter (\<lambda>t. publish_filter ns keys t \<and> publish_update by2 now2 now_u2 t \<noteq> t) ?s1 = []"
    by (simp add: filter_empty_conv)
  ultimately show ?thesis
    by (simp add: prod_eq_iff postPublish_def [of ns keys by2] updateMany_fst updateMany_snd)
qed

text \<open>
  The specification's example: the first publish of \<^verbatim>\<open>k1\<close> modifies one document, the
  second none.
\<close>

theorem postPublish_idempotent_witness:
  "snd (postPublish ''ui'' [''k1''] ''bob'' 2 2 hello_store) = 1 \<and>
   postPublish ''ui'' [''k1''] ''bob'' 3 3
       (fst (postPublish ''ui'' [''k1''] ''bob'' 2 2 hello_store)) =
     (fst (postPublish ''ui'' [''k1''] ''bob'' 2 2 hello_store), 0)"
  using postPublish_idempotent [of "''ui''" "[''k1'']" "''bob''" 3 3 "''bob''" 2 2 hello_store]
  by (simp add: ex_defs)

section \<open>Properties of the update route\<close>

lemma findOneAndUpdate_none:
  "\<forall>t\<in>set s. \<not> p t \<Longrightarrow> findOneAndUpdate p upd s = (s, None)"
  by (induction s) auto

lemma findOneAndUpdate_first:
  "\<forall>t\<in>set xs. \<not> p t \<Longrightarrow> p e \<Longrightarrow>
     findOneAndUpdate p upd (xs @ e # ys) = (xs @ upd e # ys, Some (upd e))"
  by (induction xs) auto

text \<open>
  C3 as stated fails: the update document of the update route holds
  \<^verbatim>\<open>status: status || 'draft'\<close>, so a body without a status writes \<^verbatim>\<open>draft\<close>. A published
  document updated with a value alone is a draft afterwards.
\<close>

theorem putEntry_keeps_status_counterexample:
  "status_p value_only_body = None \<and>
   map status published_store = [Published] \<and>
   map status (fst (putEntry ''ui'' ''k1'' ''en'' value_only_body 3 published_store)) = [Draft]"
  by (simp add: published_store_def value_only_body_def putEntry_def put_update_def ex_defs)

text \<open>
  C3, amended. The update route fails with not-found and modifies no document when no
  document has the (namespace, key, locale); otherwise it updates the document that
  has it and leaves the others alone, and the status it stores is the status of the
  body when the body has one and \<^verbatim>\<open>draft\<close> when it has none.
\<close>

theorem putEntry_status:
  "((\<forall>t\<in>set s. \<not> (namespace t = ns \<and> key t = k \<and> locale_t t = loc)) \<longrightarrow>
      putEntry ns k loc body now s = (s, Inl NotFound)) \<and>
   (s = xs @ e # ys \<and> (\<forall>t\<in>set xs. \<not> (namespace t = ns \<and> key t = k \<and> locale_t t = loc)) \<and>
      namespace e = ns \<and> key e = k \<and> locale_t e = loc \<longrightarrow>
      putEntry ns k loc body now s =
        (xs @ put_update body now e # ys, Inr (put_update body now e)) \<and>
      status (put_update body now e) = (case status_p body of None \<Rightarrow> Draft | Some st \<Rightarrow> st))"
proof (intro conjI impI)
  assume "\<forall>t\<in>set s. \<not> (namespace t = ns \<and> key t = k \<and> locale_t t = loc)"
  then show "putEntry ns k loc body now s = (s, Inl NotFound)"
    by (simp add: putEntry_def findOneAndUpdate_none)
next
  assume a: "s = xs @ e # ys \<and>
      (\<forall>t\<in>set xs. \<not> (namespace t = ns \<and> key t = k \<and> locale_t t = loc)) \<and>
      namespace e = ns \<and> key e = k \<and> locale_t e = loc"
  then have "findOneAndUpdate (\<lambda>t. namespace t = ns \<and> key t = k \<and> locale_t t = loc)
      (put_update body now) s = (xs @ put_update body now e # ys, Some (put_update body now e))"
    using findOneAndUpdate_first
      [of xs "\<lambda>t. namespace t = ns \<and> key t = k \<and> locale_t t = loc" e "put_update body now" ys]
    by simp
  then show "putEntry ns k loc body now s =
      (xs @ put_update body now e # ys, Inr (put_update body now e))"
    by (simp add: putEntry_def)
next
  show "status (put_update body now e) = (case status_p body of None \<Rightarrow> Draft | Some st \<Rightarrow> st)"
    by (simp add: put_update_def)
qed

text \<open>
  On the collection of \<open>hello_doc\<close>: no document for locale \<^verbatim>\<open>fr\<close>, so not-found and
  no change; for locale \<^verbatim>\<open>en\<close> a body without status stores \<^verbatim>\<open>draft\<close>, and a body with
  status \<^verbatim>\<open>reviewed\<close> stores \<^verbatim>\<open>reviewed\<close>.
\<close>

theorem putEntry_status_witness:
  "putEntry ''ui'' ''k1'' ''fr'' value_only_body 3 [hello_doc] = ([hello_doc], Inl NotFound) \<and>
   putEntry ''ui'' ''k1'' ''en'' value_only_body 3 [hello_doc] =
     ([put_update value_only_body 3 hello_doc], Inr (put_update value_only_body 3 hello_doc)) \<and>
   status (put_update value_only_body 3 hello_doc) = Draft \<and>
   status (put_update (value_only_body\<lparr>status_p := Some Reviewed\<rparr>) 3 hello_doc) = Reviewed"
  using
    putEntry_status [of "[hello_doc]" "''ui''" "''k1''" "''fr''" value_only_body 3 "[]" hello_doc "[]"]
    putEntry_status [of "[hello_doc]" "''ui''" "''k1''" "''en''" value_only_body 3 "[]" hello_doc "[]"]
    putEntry_status [of "[hello_doc]" "''ui''" "''k1''" "''en''" "value_only_body\<lparr>status_p := Some Reviewed\<rparr>" 3 "[]" hello_doc "[]"]
  by (simp add: hello_doc_def value_only_body_def ex_defs)

section \<open>Properties of archiving\<close>




section \<open>Properties of the keys route on an archived document\<close>

lemma postPublish_append:
  "fst (postPublish ns keys by now now_u (xs @ ys)) =
     fst (postPublish ns keys by now now_u xs) @ fst (postPublish ns keys by now now_u ys)"
  by (simp add: postPublish_def updateMany_fst)

lemma getBundles_append:
  "getBundles namespaces locales st (xs @ ys) =
     getBundles namespaces locales st xs @ getBundles namespaces locales st ys"
  by (simp add: getBundles_def)

lemma getBundles_inactive:
  "\<not> isActive d \<Longrightarrow> getBundles namespaces locales st (d # ys) = getBundles namespaces locales st ys"
  by (simp add: getBundles_def)

text \<open>
  C10. The keys route on a (namespace, key, locale) whose document is inactive writes
  the value and \<^verbatim>\<open>status = draft\<close> and leaves \<^verbatim>\<open>isActive\<close> false, so the document
  stays out of every \<^verbatim>\<open>getBundles\<close> result; a publish of its key then makes it
  published, still inactive and still out of every \<^verbatim>\<open>getBundles\<close> result.
\<close>

theorem upsert_archived_stays_excluded:
  "s = xs @ e # ys \<and> (\<forall>t\<in>set xs. \<not> (namespace t = ns \<and> key t = k \<and> locale_t t = loc)) \<and>
   namespace e = ns \<and> key e = k \<and> locale_t e = loc \<and> \<not> isActive e \<and> k \<in> set keys \<longrightarrow>
     (let s1 = fst (upsert ns k loc v ctx vars by now s);
          d = snd (upsert ns k loc v ctx vars by now s);
          s2 = fst (postPublish ns keys pby now2 now_u2 s1);
          d2 = publish_update pby now2 now_u2 d
      in s1 = xs @ d # ys \<and> status d = Draft \<and> value_t d = v \<and> isActive d = False \<and>
         getBundles namespaces locales st s1 = getBundles namespaces locales st (xs @ ys) \<and>
         s2 = fst (postPublish ns keys pby now2 now_u2 xs) @ d2 #
                fst (postPublish ns keys pby now2 now_u2 ys) \<and>
         status d2 = Published \<and> isActive d2 = False \<and>
         getBundles namespaces locales st s2 =
           getBundles namespaces locales st (fst (postPublish ns keys pby now2 now_u2 (xs @ ys))))"
proof
  assume a: "s = xs @ e # ys \<and>
     (\<forall>t\<in>set xs. \<not> (namespace t = ns \<and> key t = k \<and> locale_t t = loc)) \<and>
     namespace e = ns \<and> key e = k \<and> locale_t e = loc \<and> \<not> isActive e \<and> k \<in> set keys"
  let ?d = "upsert_update ns k loc v ctx vars by now e"
  let ?d2 = "publish_update pby now2 now_u2 ?d"
  from a have u: "upsert ns k loc v ctx vars by now s = (xs @ ?d # ys, ?d)"
    using findOneAndUpdate_first
      [of xs "\<lambda>t. namespace t = ns \<and> key t = k \<and> locale_t t = loc" e
          "upsert_update ns k loc v ctx vars by now" ys]
    by (simp add: upsert_def findOneAndUpdate_upsert_def)
  have d: "status ?d = Draft" "value_t ?d = v" "namespace ?d = ns" "key ?d = k"
    by (simp_all add: upsert_update_def)
  from a have i: "\<not> isActive ?d" by (simp add: upsert_update_def)
  from a d have m: "publish_filter ns keys ?d" by (simp add: publish_filter_def)
  have i2: "\<not> isActive ?d2" "status ?d2 = Published"
    using i by (simp_all add: publish_update_def)
  have p: "fst (postPublish ns keys pby now2 now_u2 (xs @ ?d # ys)) =
      fst (postPublish ns keys pby now2 now_u2 xs) @ ?d2 # fst (postPublish ns keys pby now2 now_u2 ys)"
    using m by (simp add: postPublish_def updateMany_fst)
  have b1: "getBundles namespaces locales st (xs @ ?d # ys) = getBundles namespaces locales st (xs @ ys)"
    using i by (simp add: getBundles_append getBundles_inactive)
  have b2: "getBundles namespaces locales st
      (fst (postPublish ns keys pby now2 now_u2 xs) @ ?d2 # fst (postPublish ns keys pby now2 now_u2 ys)) =
      getBundles namespaces locales st (fst (postPublish ns keys pby now2 now_u2 (xs @ ys)))"
    using i2 by (simp add: getBundles_append getBundles_inactive postPublish_append)
  show "let s1 = fst (upsert ns k loc v ctx vars by now s);
          d = snd (upsert ns k loc v ctx vars by now s);
          s2 = fst (postPublish ns keys pby now2 now_u2 s1);
          d2 = publish_update pby now2 now_u2 d
      in s1 = xs @ d # ys \<and> status d = Draft \<and> value_t d = v \<and> isActive d = False \<and>
         getBundles namespaces locales st s1 = getBundles namespaces locales st (xs @ ys) \<and>
         s2 = fst (postPublish ns keys pby now2 now_u2 xs) @ d2 #
                fst (postPublish ns keys pby now2 now_u2 ys) \<and>
         status d2 = Published \<and> isActive d2 = False \<and>
         getBundles namespaces locales st s2 =
           getBundles namespaces locales st (fst (postPublish ns keys pby now2 now_u2 (xs @ ys)))"
    unfolding Let_def u fst_conv snd_conv p
    using d i i2 b1 b2 by simp
qed


text \<open>
  \<open>revived_store\<close> is the archived document written again by the keys route: a draft
  with the new value, inactive, in no bundle before or after a publish of its key.
\<close>

theorem upsert_archived_stays_excluded_witness:
  "revived_store = [upsert_update ''ui'' ''k1'' ''en'' ''Hi'' None [] ''alice'' 3 (archive 2 hello_doc)] \<and>
   map status revived_store = [Draft] \<and> map value_t revived_store = [''Hi''] \<and>
   map isActive revived_store = [False] \<and>
   getBundles [''ui''] [''en''] Draft revived_store = [] \<and>
   map status (fst (postPublish ''ui'' [''k1''] ''bob'' 4 4 revived_store)) = [Published] \<and>
   getBundles [''ui''] [''en''] Published
     (fst (postPublish ''ui'' [''k1''] ''bob'' 4 4 revived_store)) = []"
  using upsert_archived_stays_excluded
    [of archived_store "[]" "archive 2 hello_doc" "[]" "''ui''" "''k1''" "''en''" "[''k1'']"
        "''Hi''" None "[]" "''alice''" 3 "''bob''" 4 4 "[''ui'']" "[''en'']" Published]
  by (simp add: hello_doc_def getBundles_def ex_defs)

section \<open>Properties of the missing-keys report\<close>

lemma group_by_key_keys: "map fst (group_by_key ts) = remdups (map key ts)"
  by (simp add: group_by_key_def comp_def)

lemma group_by_key_locales:
  "(k, ls) \<in> set (group_by_key ts) \<Longrightarrow>
     set ls = locale_t ` {t \<in> set ts. key t = k} \<and> distinct ls \<and> k \<in> key ` set ts"
  by (auto simp: group_by_key_def)

lemma group_by_key_complete:
  "k \<in> key ` set ts \<Longrightarrow> \<exists>ls. (k, ls) \<in> set (group_by_key ts)"
  by (auto simp: group_by_key_def)

lemma present_locales_match:
  "locale_t ` {t \<in> set (match_published ns s). key t = k} = present_locales ns k s"
  by (auto simp: match_published_def present_locales_def)

lemma setDifference_set: "set (setDifference a b) = set a - set b"
  by (auto simp: setDifference_def)

lemma project_missing_nonempty:
  "(missing_m (project_missing locales (k, ls)) \<noteq> []) = (set locales - set ls \<noteq> {})"
  by (simp add: project_missing_def flip: setDifference_set)

lemma getMissingKeys_rows:
  "r \<in> set (getMissingKeys ns locales s) \<longleftrightarrow>
     (\<exists>k ls. (k, ls) \<in> set (group_by_key (match_published ns s)) \<and>
        r = project_missing locales (k, ls) \<and> set locales - set ls \<noteq> {})"
proof
  assume "r \<in> set (getMissingKeys ns locales s)"
  then obtain g where g: "g \<in> set (group_by_key (match_published ns s))"
      "r = project_missing locales g" "missing_m r \<noteq> []"
    by (auto simp: getMissingKeys_def)
  obtain k ls where kl: "g = (k, ls)" by (cases g)
  with g project_missing_nonempty [of locales k ls] show
    "\<exists>k ls. (k, ls) \<in> set (group_by_key (match_published ns s)) \<and>
        r = project_missing locales (k, ls) \<and> set locales - set ls \<noteq> {}"
    by blast
next
  assume "\<exists>k ls. (k, ls) \<in> set (group_by_key (match_published ns s)) \<and>
        r = project_missing locales (k, ls) \<and> set locales - set ls \<noteq> {}"
  then obtain k ls where g: "(k, ls) \<in> set (group_by_key (match_published ns s))"
      "r = project_missing locales (k, ls)" "set locales - set ls \<noteq> {}"
    by blast
  with project_missing_nonempty [of locales k ls] have "missing_m r \<noteq> []" by simp
  with g show "r \<in> set (getMissingKeys ns locales s)"
    by (auto simp: getMissingKeys_def)
qed

text \<open>
  C9. \<^verbatim>\<open>getMissingKeys\<close> reports exactly the keys of the namespace that have an
  active published document and for which a required locale is not among the locales
  present, each key once, with exactly the required locales that are not present. The
  locales present are those of the key's active published documents: the pipeline's
  first stage drops every other document before the grouping.
\<close>

theorem getMissingKeys_reports:
  "set (map key_m (getMissingKeys ns locales s)) =
     {k. (\<exists>t\<in>set s. namespace t = ns \<and> isActive t \<and> status t = Published \<and> key t = k) \<and>
         set locales - present_locales ns k s \<noteq> {}} \<and>
   distinct (map key_m (getMissingKeys ns locales s)) \<and>
   (\<forall>r\<in>set (getMissingKeys ns locales s).
      id_m r = key_m r \<and>
      set (locales_m r) = present_locales ns (key_m r) s \<and>
      set (missing_m r) = set locales - present_locales ns (key_m r) s \<and>
      distinct (missing_m r) \<and> missing_m r \<noteq> [])"
proof (intro conjI)
  let ?M = "match_published ns s"
  have keys: "key ` set ?M =
      {k. \<exists>t\<in>set s. namespace t = ns \<and> isActive t \<and> status t = Published \<and> key t = k}"
    by (auto simp: match_published_def)
  show "set (map key_m (getMissingKeys ns locales s)) =
     {k. (\<exists>t\<in>set s. namespace t = ns \<and> isActive t \<and> status t = Published \<and> key t = k) \<and>
         set locales - present_locales ns k s \<noteq> {}}" (is "?L = ?R")
  proof (intro set_eqI iffI)
    fix k assume "k \<in> ?L"
    then obtain r where r: "r \<in> set (getMissingKeys ns locales s)" "key_m r = k" by auto
    then obtain k' ls where g: "(k', ls) \<in> set (group_by_key ?M)"
        "r = project_missing locales (k', ls)" "set locales - set ls \<noteq> {}"
      unfolding getMissingKeys_rows by blast
    from r g have "k' = k" by (simp add: project_missing_def)
    with g group_by_key_locales [of k ls ?M] show "k \<in> ?R"
      unfolding present_locales_match keys by auto
  next
    fix k assume "k \<in> ?R"
    then have kin: "k \<in> key ` set ?M" and d: "set locales - present_locales ns k s \<noteq> {}"
      unfolding keys by auto
    from kin obtain ls where g: "(k, ls) \<in> set (group_by_key ?M)"
      using group_by_key_complete by blast
    with group_by_key_locales [of k ls ?M] have "set ls = present_locales ns k s"
      unfolding present_locales_match by simp
    with d g have "project_missing locales (k, ls) \<in> set (getMissingKeys ns locales s)"
      unfolding getMissingKeys_rows by auto
    moreover have "key_m (project_missing locales (k, ls)) = k"
      by (simp add: project_missing_def)
    ultimately show "k \<in> ?L" by force
  qed
next
  have "map key_m (map (project_missing locales) (group_by_key (match_published ns s))) =
      remdups (map key (match_published ns s))"
    by (simp add: project_missing_def comp_def flip: group_by_key_keys)
  then have "distinct (map key_m (map (project_missing locales) (group_by_key (match_published ns s))))"
    by simp
  then show "distinct (map key_m (getMissingKeys ns locales s))"
    unfolding getMissingKeys_def by (rule distinct_map_filter)
next
  show "\<forall>r\<in>set (getMissingKeys ns locales s).
      id_m r = key_m r \<and>
      set (locales_m r) = present_locales ns (key_m r) s \<and>
      set (missing_m r) = set locales - present_locales ns (key_m r) s \<and>
      distinct (missing_m r) \<and> missing_m r \<noteq> []"
  proof
  fix r assume "r \<in> set (getMissingKeys ns locales s)"
  then obtain k ls where g: "(k, ls) \<in> set (group_by_key (match_published ns s))"
      "r = project_missing locales (k, ls)" "set locales - set ls \<noteq> {}"
    unfolding getMissingKeys_rows by blast
  from g(1) have ls: "set ls = present_locales ns k s"
    using group_by_key_locales [of k ls "match_published ns s"]
    unfolding present_locales_match by simp
  have m: "set (missing_m r) = set locales - set ls"
    using g(2) by (simp add: project_missing_def setDifference_set)
  have "distinct (missing_m r)"
    using g(2) by (simp add: project_missing_def setDifference_def)
  moreover from m g(3) have "missing_m r \<noteq> []" by auto
  ultimately show "id_m r = key_m r \<and>
      set (locales_m r) = present_locales ns (key_m r) s \<and>
      set (missing_m r) = set locales - present_locales ns (key_m r) s \<and>
      distinct (missing_m r) \<and> missing_m r \<noteq> []"
    using g(2) ls m by (simp add: project_missing_def)
  qed
qed



text \<open>
  The specification's example: with \<^verbatim>\<open>greeting\<close> published in \<^verbatim>\<open>en\<close> and \<^verbatim>\<open>ar\<close>, the
  report for \<^verbatim>\<open>en, ar, fr\<close> is the key with \<^verbatim>\<open>fr\<close> missing, and the report for
  \<^verbatim>\<open>en, ar\<close> is empty.
\<close>

theorem getMissingKeys_reports_witness:
  "getMissingKeys ''ui'' [''en'', ''ar'', ''fr''] greeting_store =
     [\<lparr>id_m = ''greeting'', key_m = ''greeting'', locales_m = [''en'', ''ar''],
       missing_m = [''fr'']\<rparr>] \<and>
   present_locales ''ui'' ''greeting'' greeting_store = {''en'', ''ar''} \<and>
   getMissingKeys ''ui'' [''en'', ''ar''] greeting_store = []"
proof -
  have m: "match_published ''ui'' greeting_store = greeting_store"
    by (simp add: greeting_store_def match_published_def ex_defs)
  have g: "group_by_key greeting_store = [(''greeting'', [''en'', ''ar''])]"
    by (simp add: greeting_store_def group_by_key_def ex_defs)
  have p: "present_locales ''ui'' ''greeting'' greeting_store = {''en'', ''ar''}"
    by (simp add: greeting_store_def present_locales_def ex_defs)
  have a: "getMissingKeys ''ui'' [''en'', ''ar'', ''fr''] greeting_store =
     [\<lparr>id_m = ''greeting'', key_m = ''greeting'', locales_m = [''en'', ''ar''],
       missing_m = [''fr'']\<rparr>]"
    by (simp add: getMissingKeys_def m g project_missing_def setDifference_def)
  have b: "getMissingKeys ''ui'' [''en'', ''ar''] greeting_store = []"
    by (simp add: getMissingKeys_def m g project_missing_def setDifference_def)
  from a b p getMissingKeys_reports [of "''ui''" "[''en'', ''ar'', ''fr'']" greeting_store]
  show ?thesis by simp
qed

section \<open>Properties of the keys route followed by a read of the key\<close>

lemma foldl_upd_other:
  "\<forall>u\<in>set xs. locale_t u \<noteq> loc \<Longrightarrow>
     foldl (\<lambda>result t. assign result (locale_t t) (view t)) m0 xs loc = m0 loc"
  by (induction xs arbitrary: m0) (auto simp: assign_def)

lemma foldl_upd_found:
  "t \<in> set xs \<Longrightarrow> locale_t t \<noteq> ''__proto__'' \<Longrightarrow>
   \<forall>u\<in>set xs. locale_t u = locale_t t \<longrightarrow> u = t \<Longrightarrow>
     foldl (\<lambda>result t. assign result (locale_t t) (view t)) m0 xs (locale_t t) = Some (view t)"
proof (induction xs arbitrary: m0)
  case Nil
  then show ?case by simp
next
  case (Cons x xs)
  show ?case
  proof (cases "t \<in> set xs")
    case True
    with Cons show ?thesis by simp
  next
    case False
    with Cons.prems have x: "x = t" by simp
    from False Cons.prems have "\<forall>u\<in>set xs. locale_t u \<noteq> locale_t t" by auto
    then have "foldl (\<lambda>result t. assign result (locale_t t) (view t))
        (assign m0 (locale_t t) (view t)) xs (locale_t t) =
        (assign m0 (locale_t t) (view t)) (locale_t t)"
      by (rule foldl_upd_other)
    also have "\<dots> = Some (view t)"
      using Cons.prems(2) by (simp add: assign_def)
    finally show ?thesis
      unfolding x by (simp only: foldl_Cons)
  qed
qed

lemma unique_index_same:
  "unique_index s \<Longrightarrow> a \<in> set s \<Longrightarrow> b \<in> set s \<Longrightarrow>
     namespace a = namespace b \<Longrightarrow> key a = key b \<Longrightarrow> locale_t a = locale_t b \<Longrightarrow> a = b"
  by (auto simp: unique_index_def distinct_map inj_on_def)

lemma getEntry_lookup:
  assumes u: "unique_index s" and d: "d \<in> set s"
    and k: "namespace d = ns" "key d = k" "locale_t d = loc" and l: "loc \<in> set locales"
    and n: "loc \<noteq> ''__proto__''"
  shows "getEntry ns k locales s loc = (if isActive d then Some (view d) else None)"
proof -
  let ?F = "filter (\<lambda>t. namespace t = ns \<and> key t = k \<and> locale_t t \<in> set locales \<and> isActive t) s"
  have same: "\<forall>t\<in>set ?F. locale_t t = loc \<longrightarrow> t = d"
    using unique_index_same [OF u _ d] k by auto
  show ?thesis
  proof (cases "isActive d")
    case True
    with d k l have "d \<in> set (sort_key locale_t ?F)" by simp
    moreover from same k have "\<forall>t\<in>set (sort_key locale_t ?F). locale_t t = locale_t d \<longrightarrow> t = d"
      by simp
    moreover from k n have "locale_t d \<noteq> ''__proto__''" by simp
    ultimately have "foldl (\<lambda>result t. assign result (locale_t t) (view t)) Map.empty
        (sort_key locale_t ?F) (locale_t d) = Some (view d)"
      using foldl_upd_found [of d "sort_key locale_t ?F" Map.empty] by blast
    with True k show ?thesis by (simp add: getEntry_def)
  next
    case False
    with same have "\<forall>t\<in>set (sort_key locale_t ?F). locale_t t \<noteq> loc" by auto
    then have "foldl (\<lambda>result t. assign result (locale_t t) (view t)) Map.empty
        (sort_key locale_t ?F) loc = None"
      by (simp add: foldl_upd_other)
    with False show ?thesis by (simp add: getEntry_def)
  qed
qed

lemma upsert_cases:
  "(let p = (\<lambda>t. namespace t = ns \<and> key t = k \<and> locale_t t = loc) in
     (find p s = None \<and>
        upsert ns k loc v ctx vars by now s =
          (s @ [upsert_insert ns k loc v ctx vars by now], upsert_insert ns k loc v ctx vars by now) \<and>
        (ns, k, loc) \<notin> set (map (\<lambda>t. (namespace t, key t, locale_t t)) s)) \<or>
     (\<exists>xs e ys. s = xs @ e # ys \<and> p e \<and> find p s = Some e \<and>
        upsert ns k loc v ctx vars by now s =
          (xs @ upsert_update ns k loc v ctx vars by now e # ys,
           upsert_update ns k loc v ctx vars by now e)))"
proof -
  let ?p = "\<lambda>t. namespace t = ns \<and> key t = k \<and> locale_t t = loc"
  show ?thesis
  proof (cases "\<exists>t\<in>set s. ?p t")
    case False
    then have n: "\<forall>t\<in>set s. \<not> ?p t" by blast
    then have "findOneAndUpdate ?p (upsert_update ns k loc v ctx vars by now) s = (s, None)"
      by (rule findOneAndUpdate_none)
    moreover from n have "find ?p s = None" by (rule find_none_iff_all)
    moreover from n have "(ns, k, loc) \<notin> set (map (\<lambda>t. (namespace t, key t, locale_t t)) s)"
      by auto
    ultimately show ?thesis
      by (simp add: upsert_def findOneAndUpdate_upsert_def)
  next
    case True
    then obtain xs e ys where s: "s = xs @ e # ys" "?p e" "\<forall>t\<in>set xs. \<not> ?p t"
      using split_list_first_prop [of s ?p] by blast
    then have "findOneAndUpdate ?p (upsert_update ns k loc v ctx vars by now) s =
        (xs @ upsert_update ns k loc v ctx vars by now e # ys,
         Some (upsert_update ns k loc v ctx vars by now e))"
      using findOneAndUpdate_first [of xs ?p e] by simp
    moreover from s have "find ?p s = Some e"
      using find_first_split [of xs ?p e ys] by simp
    ultimately show ?thesis
      using s by (simp add: upsert_def findOneAndUpdate_upsert_def) blast
  qed
qed

text \<open>
  C6, amended. On a collection that respects the unique index, the keys route leaves one
  document for the (namespace, key, locale) and changes no document of another
  (namespace, key, locale). The document holds the given value, variables and creator,
  the given context when one is given (the stored one, if any, otherwise) and status
  draft whatever its status was before; it is active when it is new, and as active as
  it was when it existed. A read of the key for a list of locales that holds the
  locale, a locale other than \<^verbatim>\<open>__proto__\<close>, returns for that locale this value, context
  and variables with status draft when the document is active, and nothing when it is
  not.
\<close>

theorem upsert_then_getEntry:
  "unique_index s \<and> loc \<in> set locales \<and> loc \<noteq> ''__proto__'' \<longrightarrow>
     (let s1 = fst (upsert ns k loc v ctx vars by now s);
          d = snd (upsert ns k loc v ctx vars by now s);
          old = find (\<lambda>t. namespace t = ns \<and> key t = k \<and> locale_t t = loc) s
      in d \<in> set s1 \<and> unique_index s1 \<and>
         filter (\<lambda>t. \<not> (namespace t = ns \<and> key t = k \<and> locale_t t = loc)) s1 =
           filter (\<lambda>t. \<not> (namespace t = ns \<and> key t = k \<and> locale_t t = loc)) s \<and>
         namespace d = ns \<and> key d = k \<and> locale_t d = loc \<and> value_t d = v \<and> status d = Draft \<and>
         variables d = vars \<and> createdBy (metadata d) = by \<and>
         context_t d =
           (case ctx of Some c \<Rightarrow> Some c
            | None \<Rightarrow> (case old of None \<Rightarrow> None | Some e \<Rightarrow> context_t e)) \<and>
         isActive d = (case old of None \<Rightarrow> True | Some e \<Rightarrow> isActive e) \<and>
         getEntry ns k locales s1 loc =
           (if isActive d
            then Some \<lparr>value_r = v, context_r = context_t d, status_r = Draft, variables_r = vars\<rparr>
            else None))"
proof
  assume a: "unique_index s \<and> loc \<in> set locales \<and> loc \<noteq> ''__proto__''"
  let ?s1 = "fst (upsert ns k loc v ctx vars by now s)"
  let ?d = "snd (upsert ns k loc v ctx vars by now s)"
  let ?p = "\<lambda>t. namespace t = ns \<and> key t = k \<and> locale_t t = loc"
  let ?ins = "upsert_insert ns k loc v ctx vars by now"
  let ?upd = "upsert_update ns k loc v ctx vars by now"
  from upsert_cases [of ns k loc s v ctx vars "by" now]
  consider (inserted) "find ?p s = None"
      "upsert ns k loc v ctx vars by now s = (s @ [?ins], ?ins)"
      "(ns, k, loc) \<notin> set (map (\<lambda>t. (namespace t, key t, locale_t t)) s)"
    | (updated) xs e ys where "s = xs @ e # ys" "?p e" "find ?p s = Some e"
      "upsert ns k loc v ctx vars by now s = (xs @ ?upd e # ys, ?upd e)"
    unfolding Let_def by (elim disjE exE conjE) auto
  then have facts: "?d \<in> set ?s1 \<and> unique_index ?s1 \<and>
      filter (\<lambda>t. \<not> ?p t) ?s1 = filter (\<lambda>t. \<not> ?p t) s \<and>
      namespace ?d = ns \<and> key ?d = k \<and> locale_t ?d = loc \<and> value_t ?d = v \<and> status ?d = Draft \<and>
      variables ?d = vars \<and> createdBy (metadata ?d) = by \<and>
      context_t ?d =
        (case ctx of Some c \<Rightarrow> Some c
         | None \<Rightarrow> (case find ?p s of None \<Rightarrow> None | Some e \<Rightarrow> context_t e)) \<and>
      isActive ?d = (case find ?p s of None \<Rightarrow> True | Some e \<Rightarrow> isActive e)"
  proof cases
    case inserted
    from a inserted(3) have "unique_index (s @ [?ins])"
      by (simp add: unique_index_def upsert_insert_def)
    then show ?thesis
      unfolding inserted(1) inserted(2)
      by (simp add: upsert_insert_def split: option.splits)
  next
    case updated
    from a updated(1) updated(2) have "unique_index (xs @ ?upd e # ys)"
      by (simp add: unique_index_def upsert_update_def)
    moreover from updated(1) updated(2) have
      "filter (\<lambda>t. \<not> ?p t) (xs @ ?upd e # ys) = filter (\<lambda>t. \<not> ?p t) s"
      by (simp add: upsert_update_def)
    ultimately show ?thesis
      unfolding updated(3) updated(4)
      by (simp add: upsert_update_def split: option.splits)
  qed
  then have "getEntry ns k locales ?s1 loc = (if isActive ?d then Some (view ?d) else None)"
    using a getEntry_lookup [of ?s1 ?d ns k loc locales] by simp
  moreover from facts have
    "view ?d = \<lparr>value_r = v, context_r = context_t ?d, status_r = Draft, variables_r = vars\<rparr>"
    by (simp add: view_def)
  ultimately have "getEntry ns k locales ?s1 loc =
      (if isActive ?d
       then Some \<lparr>value_r = v, context_r = context_t ?d, status_r = Draft, variables_r = vars\<rparr>
       else None)"
    by simp
  with facts show "let s1 = ?s1; d = ?d; old = find ?p s
      in d \<in> set s1 \<and> unique_index s1 \<and>
         filter (\<lambda>t. \<not> ?p t) s1 = filter (\<lambda>t. \<not> ?p t) s \<and>
         namespace d = ns \<and> key d = k \<and> locale_t d = loc \<and> value_t d = v \<and> status d = Draft \<and>
         variables d = vars \<and> createdBy (metadata d) = by \<and>
         context_t d =
           (case ctx of Some c \<Rightarrow> Some c
            | None \<Rightarrow> (case old of None \<Rightarrow> None | Some e \<Rightarrow> context_t e)) \<and>
         isActive d = (case old of None \<Rightarrow> True | Some e \<Rightarrow> isActive e) \<and>
         getEntry ns k locales s1 loc =
           (if isActive d
            then Some \<lparr>value_r = v, context_r = context_t d, status_r = Draft, variables_r = vars\<rparr>
            else None)"
    unfolding Let_def by blast
qed

text \<open>
  C6 as stated fails: the read of a key returns active documents only, and the keys
  route does not write \<^verbatim>\<open>isActive\<close>. After the keys route writes the archived document
  of \<open>archived_store\<close>, the document holds the new value as a draft, and the read of
  the key returns nothing for its locale.
\<close>

theorem upsert_then_getEntry_counterexample:
  "map status archived_store = [Archived] \<and>
   map isActive archived_store = [False] \<and>
   revived_store = fst (upsert ''ui'' ''k1'' ''en'' ''Hi'' None [] ''alice'' 3 archived_store) \<and>
   map value_t revived_store = [''Hi''] \<and>
   map status revived_store = [Draft] \<and>
   getEntry ''ui'' ''k1'' [''en''] revived_store ''en'' = None"
  by (simp add: getEntry_def assign_def ex_defs)

text \<open>
  A new document, and a published one written again: each read returns the written
  value with status \<^verbatim>\<open>draft\<close>.
\<close>

theorem upsert_then_getEntry_witness:
  "getEntry ''ui'' ''k1'' [''en''] (fst (upsert ''ui'' ''k1'' ''en'' ''Hello'' None [] ''alice'' 1 []))
      ''en'' =
     Some \<lparr>value_r = ''Hello'', context_r = None, status_r = Draft, variables_r = []\<rparr> \<and>
   unique_index published_store \<and>
   map status published_store = [Published] \<and>
   map (createdBy \<circ> metadata) published_store = [''bob''] \<and>
   map (createdBy \<circ> metadata)
     (fst (upsert ''ui'' ''k1'' ''en'' ''Hi'' (Some ''button'') [] ''carol'' 5 published_store)) =
     [''carol''] \<and>
   getEntry ''ui'' ''k1'' [''en'', ''fr'']
       (fst (upsert ''ui'' ''k1'' ''en'' ''Hi'' (Some ''button'') [] ''carol'' 5 published_store))
       ''en'' =
     Some \<lparr>value_r = ''Hi'', context_r = Some ''button'', status_r = Draft, variables_r = []\<rparr>"
proof -
  have p: "published_store =
      [\<lparr>namespace = ''ui'', key = ''k1'', locale_t = ''en'', value_t = ''Hello'',
        context_t = None, status = Published,
        metadata = \<lparr>createdBy = ''bob'', reviewedBy = None, reviewedAt = None,
                    publishedAt = Some 2, source = Manual\<rparr>,
        variables = [], isActive = True, createdAt = 1, updatedAt = 2\<rparr>]"
    by (simp add: published_store_def ex_defs)
  have u: "unique_index published_store" "unique_index []"
    by (simp_all add: p unique_index_def)
  from u
    upsert_then_getEntry [where s = "[]" and loc = "''en''" and locales = "[''en'']"
      and ns = "''ui''" and k = "''k1''" and v = "''Hello''" and ctx = None and vars = "[]"
      and ?by = "''alice''" and now = 1]
    upsert_then_getEntry [where s = published_store and loc = "''en''"
      and locales = "[''en'', ''fr'']" and ns = "''ui''" and k = "''k1''" and v = "''Hi''"
      and ctx = "Some ''button''" and vars = "[]" and ?by = "''carol''" and now = 5]
  show ?thesis
    by (simp add: p upsert_def findOneAndUpdate_upsert_def upsert_update_def
        upsert_insert_def Let_def)
qed

section \<open>Properties of the publication timestamp\<close>

lemma findOneAndUpdate_fst_map:
  "(\<And>t. f (upd t) = f t) \<Longrightarrow> map f (fst (findOneAndUpdate p upd s)) = map f s"
  by (induction s) (auto split: prod.splits)

lemma upsert_fst:
  "fst (upsert ns k loc v ctx vars by now s) =
     (case snd (findOneAndUpdate (\<lambda>t. namespace t = ns \<and> key t = k \<and> locale_t t = loc)
                  (upsert_update ns k loc v ctx vars by now) s) of
        None \<Rightarrow> s @ [upsert_insert ns k loc v ctx vars by now]
      | Some d \<Rightarrow> fst (findOneAndUpdate (\<lambda>t. namespace t = ns \<and> key t = k \<and> locale_t t = loc)
                  (upsert_update ns k loc v ctx vars by now) s))"
  by (simp add: upsert_def findOneAndUpdate_upsert_def split: prod.splits option.splits)

lemma putEntry_fst:
  "fst (putEntry ns k loc body now s) =
     fst (findOneAndUpdate (\<lambda>t. namespace t = ns \<and> key t = k \<and> locale_t t = loc)
            (put_update body now) s)"
  by (simp add: putEntry_def split: prod.splits option.splits)

text \<open>
  C2 as stated fails: \<^verbatim>\<open>publishedAt\<close> can be written more than once. The keys route
  turns a published document into a draft and keeps its stamp; the next publish
  matches the draft and overwrites the stamp of the first publish.
\<close>

theorem publishedAt_once_counterexample:
  "map status published_store = [Published] \<and>
   map (publishedAt \<circ> metadata) published_store = [Some 2] \<and>
   map status redrafted_store = [Draft] \<and>
   map (publishedAt \<circ> metadata) redrafted_store = [Some 2] \<and>
   map status republished_store = [Published] \<and>
   map (publishedAt \<circ> metadata) republished_store = [Some 4]"
  by (simp add: republished_store_def redrafted_store_def published_store_def ex_defs)

text \<open>
  C2, amended. The pre-save hook stamps \<^verbatim>\<open>publishedAt\<close> only when the status is
  published and no stamp is stored, and keeps a stored stamp. The publish route stamps
  every document it moves from draft or reviewed to published, also one that was
  published before, and leaves the stamp of every other document (the published ones
  among them) as it is; a second publish right after the first changes no stamp. The
  keys route, the update route, \<^verbatim>\<open>archive()\<close> and \<^verbatim>\<open>review()\<close> change no stored stamp,
  and \<^verbatim>\<open>publish()\<close> on a document that is not published stamps it.
\<close>

theorem publishedAt_writes:
  "publishedAt (metadata (pre_save now t)) =
     (if status t = Published \<and> publishedAt (metadata t) = None then Some now
      else publishedAt (metadata t)) \<and>
   map (publishedAt \<circ> metadata) (fst (postPublish ns keys pby now now_u s)) =
     map (\<lambda>t. if namespace t = ns \<and> key t \<in> set keys \<and> (status t = Draft \<or> status t = Reviewed)
               then Some now else publishedAt (metadata t)) s \<and>
   map (publishedAt \<circ> metadata)
       (fst (postPublish ns keys pby2 now2 now_u2 (fst (postPublish ns keys pby now now_u s)))) =
     map (publishedAt \<circ> metadata) (fst (postPublish ns keys pby now now_u s)) \<and>
   take (length s) (map (publishedAt \<circ> metadata) (fst (upsert ns k loc v ctx vars by now s))) =
     map (publishedAt \<circ> metadata) s \<and>
   map (publishedAt \<circ> metadata) (fst (putEntry ns k loc body now s)) =
     map (publishedAt \<circ> metadata) s \<and>
   publishedAt (metadata (archive now t)) = publishedAt (metadata t) \<and>
   publishedAt (metadata (review rby now_r now t)) = publishedAt (metadata t) \<and>
   (status t \<noteq> Published \<longrightarrow> publishedAt (metadata (publish now_p now t)) = Some now_p)"
proof (intro conjI)
  show "publishedAt (metadata (pre_save now t)) =
     (if status t = Published \<and> publishedAt (metadata t) = None then Some now
      else publishedAt (metadata t))"
    by (simp add: pre_save_def Let_def)
next
  show "map (publishedAt \<circ> metadata) (fst (postPublish ns keys pby now now_u s)) =
     map (\<lambda>t. if namespace t = ns \<and> key t \<in> set keys \<and> (status t = Draft \<or> status t = Reviewed)
               then Some now else publishedAt (metadata t)) s"
    by (auto simp: postPublish_def updateMany_fst publish_filter_def publish_update_def)
next
  let ?s1 = "fst (postPublish ns keys pby now now_u s)"
  have "\<forall>t\<in>set ?s1. \<not> publish_filter ns keys t"
    using publish_update_unmatched by (auto simp: postPublish_def updateMany_fst)
  then have "map (\<lambda>t. if publish_filter ns keys t then publish_update pby2 now2 now_u2 t else t)
      ?s1 = ?s1"
    by (simp add: map_idI)
  then show "map (publishedAt \<circ> metadata) (fst (postPublish ns keys pby2 now2 now_u2 ?s1)) =
     map (publishedAt \<circ> metadata) ?s1"
    by (simp add: postPublish_def [of ns keys pby2] updateMany_fst)
next
  have "map (publishedAt \<circ> metadata)
      (fst (findOneAndUpdate (\<lambda>t. namespace t = ns \<and> key t = k \<and> locale_t t = loc)
         (upsert_update ns k loc v ctx vars by now) s)) = map (publishedAt \<circ> metadata) s"
    by (rule findOneAndUpdate_fst_map) (simp add: upsert_update_def)
  then show "take (length s)
      (map (publishedAt \<circ> metadata) (fst (upsert ns k loc v ctx vars by now s))) =
     map (publishedAt \<circ> metadata) s"
    unfolding upsert_fst by (simp split: option.splits)
next
  show "map (publishedAt \<circ> metadata) (fst (putEntry ns k loc body now s)) =
     map (publishedAt \<circ> metadata) s"
    unfolding putEntry_fst by (rule findOneAndUpdate_fst_map) (simp add: put_update_def)
next
  show "publishedAt (metadata (archive now t)) = publishedAt (metadata t)"
    by (simp add: archive_def save_def pre_save_def Let_def)
next
  show "publishedAt (metadata (review rby now_r now t)) = publishedAt (metadata t)"
    by (simp add: review_def save_def pre_save_def Let_def)
next
  show "status t \<noteq> Published \<longrightarrow> publishedAt (metadata (publish now_p now t)) = Some now_p"
    by (simp add: publish_def save_def pre_save_def Let_def)
qed

text \<open>
  On \<open>hello_doc\<close> and its collections: the first publish stamps, the hook stamps a
  published document without stamp and keeps a stored stamp, and a second publish, an
  update and an archive keep the stamp of the first publish.
\<close>

theorem publishedAt_writes_witness:
  "status hello_doc = Draft \<and>
   publishedAt (metadata (publish 2 3 hello_doc)) = Some 2 \<and>
   publishedAt (metadata (pre_save 9 (hello_doc\<lparr>status := Published\<rparr>))) = Some 9 \<and>
   publishedAt (metadata (pre_save 9 (publish 2 3 hello_doc))) = Some 2 \<and>
   map (publishedAt \<circ> metadata) (fst (postPublish ''ui'' [''k1''] ''bob'' 2 2 hello_store)) = [Some 2] \<and>
   map (publishedAt \<circ> metadata) (fst (postPublish ''ui'' [''k1''] ''bob'' 7 7 published_store)) =
     [Some 2] \<and>
   map (publishedAt \<circ> metadata)
     (fst (putEntry ''ui'' ''k1'' ''en'' value_only_body 8 published_store)) = [Some 2] \<and>
   publishedAt (metadata (archive 8 (publish 2 3 hello_doc))) = Some 2"
  using
    publishedAt_writes [where t = hello_doc and now_p = 2 and now = 3 and s = "[]"]
    publishedAt_writes [where t = "hello_doc\<lparr>status := Published\<rparr>" and now = 9 and s = "[]"]
    publishedAt_writes [where t = "publish 2 3 hello_doc" and now = 9 and s = "[]"]
    publishedAt_writes [where t = hello_doc and now = 2 and now_u = 2 and s = hello_store
      and ns = "''ui''" and keys = "[''k1'']" and pby = "''bob''"]
    publishedAt_writes [where t = "publish 2 3 hello_doc" and now = 7 and now_u = 7
      and s = published_store and ns = "''ui''" and keys = "[''k1'']" and pby = "''bob''"]
    publishedAt_writes [where t = "publish 2 3 hello_doc" and now = 8 and s = published_store
      and ns = "''ui''" and k = "''k1''" and loc = "''en''" and body = value_only_body]
  by (simp add: hello_doc_def published_store_def value_only_body_def putEntry_def put_update_def
      publish_def ex_defs)

text \<open>
  Two more ways the stamp departs from write-once, outside the amended statement: the
  instance method \<^verbatim>\<open>publish()\<close> assigns the stamp before the hook runs, so a second call
  replaces it; and the update route can store \<^verbatim>\<open>status = published\<close> without any stamp,
  since no save hook runs on \<^verbatim>\<open>findOneAndUpdate\<close>.
\<close>

lemma publish_method_restamps:
  "status (publish 2 3 hello_doc) = Published \<and>
   publishedAt (metadata (publish 2 3 hello_doc)) = Some 2 \<and>
   publishedAt (metadata (publish 5 6 (publish 2 3 hello_doc))) = Some 5"
  by (simp add: hello_doc_def publish_def ex_defs)

lemma put_published_no_stamp:
  "map status (fst (putEntry ''ui'' ''k1'' ''en'' (value_only_body\<lparr>status_p := Some Published\<rparr>) 8
      hello_store)) = [Published] \<and>
   map (publishedAt \<circ> metadata)
     (fst (putEntry ''ui'' ''k1'' ''en'' (value_only_body\<lparr>status_p := Some Published\<rparr>) 8
        hello_store)) = [None]"
  by (simp add: value_only_body_def putEntry_def put_update_def ex_defs)

end
